theory Spec2Isabelle
  imports Main "HOL-Library.AList"
begin

section \<open>Rotation of a MariaDB credential between a user and its clone\<close>

text \<open>
  A shallow embedding of \<^verbatim>\<open>lambda_function.py\<close>
  (SecretsManagerRDSMariaDBRotationMultiUser). The handler talks to three
  collaborators: the secret store, the database and the instance inventory.
  Every call to one of them is an \<^emph>\<open>effect\<close>; a run of a function takes the
  list of effects performed so far and returns its result together with the
  extended list. What a collaborator answers is given by an environment whose
  answers may depend on everything that happened before the call, so nothing
  is assumed about the collaborators beyond their signatures. Python exceptions
  are values of type \<open>error\<close>.

  Not modelled: log output, and the construction of the client objects
  (\<^verbatim>\<open>boto3.client\<close>, \<^verbatim>\<open>conn.cursor()\<close>), which performs no call to a
  collaborator. The values of a secret's JSON object are strings, the units
  \<^verbatim>\<open>len\<close> counts are the elements of the string.
\<close>

subsection \<open>Data\<close>

datatype error =
    ValueError string
  | KeyError string
  | ResourceNotFoundException
  | OperationalError
  | OtherException string

text \<open>A Python dictionary with string keys, in insertion order.\<close>

type_synonym secret_dict = "(string \<times> string) list"

record metadata =
  RotationEnabled :: "bool option"
  VersionIdsToStages :: "(string \<times> string list) list option"

record db_instance =
  ReadReplicaSourceDBInstanceIdentifier :: "string option"

record rotation_event =
  SecretId :: string
  ClientRequestToken :: string
  Step :: string

text \<open>
  The calls to the collaborators. A connection is named by the position of the
  \<open>Connect\<close> effect that opened it.
\<close>

datatype effect =
    DescribeSecret string
  | GetSecretValue string "string option" string
  | GetRandomPassword string
  | PutSecretValue string string string "string list"
  | UpdateSecretVersionStage string string string "string option"
  | Connect string string string int "string option" int
  | Close nat
  | Execute nat string "string list"
  | Commit nat
  | DescribeDBInstances string

type_synonym 'a io = "effect list \<Rightarrow> (error + 'a) \<times> effect list"

record env =
  environ :: "(string \<times> string) list"
  sm_describe_secret :: "effect list \<Rightarrow> string \<Rightarrow> error + metadata"
  sm_get_secret_value :: "effect list \<Rightarrow> string \<Rightarrow> string option \<Rightarrow> string \<Rightarrow> error + string"
  sm_get_random_password :: "effect list \<Rightarrow> string \<Rightarrow> error + string"
  sm_put_secret_value :: "effect list \<Rightarrow> string \<Rightarrow> string \<Rightarrow> string \<Rightarrow> string list \<Rightarrow> error + unit"
  sm_update_secret_version_stage ::
    "effect list \<Rightarrow> string \<Rightarrow> string \<Rightarrow> string \<Rightarrow> string option \<Rightarrow> error + unit"
  json_loads :: "string \<Rightarrow> error + secret_dict"
  json_dumps :: "secret_dict \<Rightarrow> string"
  py_int :: "string \<Rightarrow> error + int"
  db_connect ::
    "effect list \<Rightarrow> string \<Rightarrow> string \<Rightarrow> string \<Rightarrow> int \<Rightarrow> string option \<Rightarrow> int \<Rightarrow> error + unit"
  db_close :: "effect list \<Rightarrow> nat \<Rightarrow> error + unit"
  db_execute :: "effect list \<Rightarrow> nat \<Rightarrow> string \<Rightarrow> string list \<Rightarrow> error + string list"
  db_commit :: "effect list \<Rightarrow> nat \<Rightarrow> error + unit"
  rds_describe_db_instances :: "effect list \<Rightarrow> string \<Rightarrow> error + db_instance list"

subsection \<open>Sequencing, exceptions and \<^verbatim>\<open>finally\<close>\<close>

definition return_io :: "'a \<Rightarrow> 'a io" where
  "return_io x = (\<lambda>t. (Inr x, t))"

definition raise_io :: "error \<Rightarrow> 'a io" where
  "raise_io e = (\<lambda>t. (Inl e, t))"

definition lift_io :: "error + 'a \<Rightarrow> 'a io" where
  "lift_io r = (\<lambda>t. (r, t))"

definition bind_io :: "'a io \<Rightarrow> ('a \<Rightarrow> 'b io) \<Rightarrow> 'b io" where
  "bind_io m f = (\<lambda>t. case m t of (Inl e, t') \<Rightarrow> (Inl e, t') | (Inr x, t') \<Rightarrow> f x t')"

text \<open>
  \<^verbatim>\<open>try: body finally: cleanup\<close>. The cleanup runs on every path; an exception of
  the cleanup replaces the outcome of the body.
\<close>

definition try_finally :: "'a io \<Rightarrow> unit io \<Rightarrow> 'a io" where
  "try_finally body cleanup =
    (\<lambda>t. case body t of (r, t') \<Rightarrow>
       (case cleanup t' of (Inl e, t'') \<Rightarrow> (Inl e, t'') | (Inr _, t'') \<Rightarrow> (r, t'')))"

text \<open>A call to a collaborator: it is recorded whatever it answers.\<close>

definition perform :: "effect \<Rightarrow> (effect list \<Rightarrow> error + 'a) \<Rightarrow> 'a io" where
  "perform ev answer = (\<lambda>t. (answer t, t @ [ev]))"

text \<open>\<^verbatim>\<open>d[k]\<close>: a missing key raises \<^verbatim>\<open>KeyError\<close>.\<close>

definition getitem :: "(string \<times> 'v) list \<Rightarrow> string \<Rightarrow> 'v io" where
  "getitem d k = (case map_of d k of None \<Rightarrow> raise_io (KeyError k) | Some v \<Rightarrow> return_io v)"

subsection \<open>Strings\<close>

definition startswith :: "string \<Rightarrow> string \<Rightarrow> bool" where
  "startswith s p = (take (length p) s = p)"

definition endswith :: "string \<Rightarrow> string \<Rightarrow> bool" where
  "endswith s p = (length p \<le> length s \<and> drop (length s - length p) s = p)"

text \<open>\<^verbatim>\<open>s.split(sep)[0]\<close> for a non-empty separator: the part of \<open>s\<close> before the
  first occurrence of \<open>sep\<close>, all of \<open>s\<close> when there is none.\<close>

fun split_head :: "string \<Rightarrow> string \<Rightarrow> string" where
  "split_head sep [] = []"
| "split_head sep (c # cs) = (if startswith (c # cs) sep then [] else c # split_head sep cs)"

text \<open>\<^verbatim>\<open>s.replace('%', '%%')\<close>.\<close>

definition escape_percent :: "string \<Rightarrow> string" where
  "escape_percent s = concat (map (\<lambda>c. if c = CHR ''%'' then ''%%'' else [c]) s)"

subsection \<open>The alternate user name\<close>

definition clone_suffix :: string where
  "clone_suffix = ''_clone''"

definition username_too_long :: error where
  "username_too_long =
     ValueError ''Unable to clone user, username length with _clone appended would exceed 80 characters''"

definition get_alt_username :: "string \<Rightarrow> error + string" where
  "get_alt_username current_username =
    (if endswith current_username clone_suffix
     then Inr (take (length current_username - length clone_suffix) current_username)
     else let new_username = current_username @ clone_suffix in
       if length new_username > 80 then Inl username_too_long else Inr new_username)"

subsection \<open>Reading a secret\<close>

definition required_fields :: "string list" where
  "required_fields = [''host'', ''username'', ''password'']"

definition get_secret_dict :: "env \<Rightarrow> string \<Rightarrow> string \<Rightarrow> string option \<Rightarrow> secret_dict io" where
  "get_secret_dict env arn stage token =
    bind_io
      (if token \<noteq> None \<and> token \<noteq> Some []
       then perform (GetSecretValue arn token stage) (\<lambda>t. sm_get_secret_value env t arn token stage)
       else perform (GetSecretValue arn None stage) (\<lambda>t. sm_get_secret_value env t arn None stage))
      (\<lambda>plaintext.
    bind_io (lift_io (json_loads env plaintext)) (\<lambda>d.
      if map_of d ''engine'' \<noteq> Some ''mariadb''
      then raise_io (KeyError ''Database engine must be set to 'mariadb' in order to use this rotation lambda'')
      else (case find (\<lambda>field. map_of d field = None) required_fields of
              Some field \<Rightarrow> raise_io (KeyError (field @ '' key is missing from secret JSON''))
            | None \<Rightarrow> return_io d)))"

subsection \<open>Connecting to the database\<close>

definition get_connection :: "env \<Rightarrow> secret_dict \<Rightarrow> nat option io" where
  "get_connection env d =
    bind_io (case map_of d ''port'' of Some p \<Rightarrow> lift_io (py_int env p) | None \<Rightarrow> return_io 3306)
      (\<lambda>port.
    let dbname = map_of d ''dbname'' in
    bind_io (getitem d ''host'') (\<lambda>host.
    bind_io (getitem d ''username'') (\<lambda>user.
    bind_io (getitem d ''password'') (\<lambda>passwd.
      (\<lambda>t. case db_connect env t host user passwd port dbname 5 of
              Inr _ \<Rightarrow> (Inr (Some (length t)), t @ [Connect host user passwd port dbname 5])
            | Inl OperationalError \<Rightarrow> (Inr None, t @ [Connect host user passwd port dbname 5])
            | Inl e \<Rightarrow> (Inl e, t @ [Connect host user passwd port dbname 5]))))))"

definition conn_close :: "env \<Rightarrow> nat \<Rightarrow> unit io" where
  "conn_close env conn = perform (Close conn) (\<lambda>t. db_close env t conn)"

definition conn_commit :: "env \<Rightarrow> nat \<Rightarrow> unit io" where
  "conn_commit env conn = perform (Commit conn) (\<lambda>t. db_commit env t conn)"

text \<open>\<^verbatim>\<open>cur.execute(query, args)\<close> followed by \<^verbatim>\<open>cur.fetchall()\<close>: the first column
  of the rows of the result.\<close>

definition cur_execute :: "env \<Rightarrow> nat \<Rightarrow> string \<Rightarrow> string list \<Rightarrow> string list io" where
  "cur_execute env conn query args =
     perform (Execute conn query args) (\<lambda>t. db_execute env t conn query args)"

subsection \<open>The replica check\<close>

definition instance_id :: "string \<Rightarrow> string" where
  "instance_id host = split_head ''.'' host"

definition is_rds_replica_database :: "env \<Rightarrow> secret_dict \<Rightarrow> secret_dict \<Rightarrow> bool io" where
  "is_rds_replica_database env replica_dict master_dict =
    bind_io (getitem replica_dict ''host'') (\<lambda>replica_host.
    bind_io (getitem master_dict ''host'') (\<lambda>master_host.
    let replica_instance_id = instance_id replica_host;
        master_instance_id = instance_id master_host in
    (\<lambda>t. case rds_describe_db_instances env t replica_instance_id of
            Inl err \<Rightarrow> (Inr False, t @ [DescribeDBInstances replica_instance_id])
          | Inr [] \<Rightarrow> (Inr False, t @ [DescribeDBInstances replica_instance_id])
          | Inr (current_instance # _) \<Rightarrow>
              (Inr (Some master_instance_id = ReadReplicaSourceDBInstanceIdentifier current_instance),
               t @ [DescribeDBInstances replica_instance_id]))))"

subsection \<open>createSecret\<close>

definition default_exclude_characters :: string where
  "default_exclude_characters = [CHR ''/'', CHR ''@'', CHR 0x22, CHR 0x27, CHR 0x5C]"

text \<open>Line 137: the characters a generated password must not contain.\<close>

definition exclude_characters :: "env \<Rightarrow> string" where
  "exclude_characters env =
     (case map_of (environ env) ''EXCLUDE_CHARACTERS'' of
        Some x \<Rightarrow> x | None \<Rightarrow> default_exclude_characters)"

definition create_secret :: "env \<Rightarrow> string \<Rightarrow> string \<Rightarrow> unit io" where
  "create_secret env arn token =
    bind_io (get_secret_dict env arn ''AWSCURRENT'' None) (\<lambda>current_dict.
    (\<lambda>t. case get_secret_dict env arn ''AWSPENDING'' (Some token) t of
       (Inr _, t') \<Rightarrow> (Inr (), t')
     | (Inl ResourceNotFoundException, t') \<Rightarrow>
         bind_io (getitem current_dict ''username'') (\<lambda>username.
         bind_io (lift_io (get_alt_username username)) (\<lambda>alt_username.
         let current_dict = AList.update ''username'' alt_username current_dict in
         bind_io (perform (GetRandomPassword (exclude_characters env))
                    (\<lambda>t. sm_get_random_password env t (exclude_characters env))) (\<lambda>passwd.
         let current_dict = AList.update ''password'' passwd current_dict in
         perform (PutSecretValue arn token (json_dumps env current_dict) [''AWSPENDING''])
           (\<lambda>t. sm_put_secret_value env t arn token (json_dumps env current_dict) [''AWSPENDING''])))) t'
     | (Inl e, t') \<Rightarrow> (Inl e, t')))"

subsection \<open>setSecret\<close>

text \<open>The statement that replays one row of \<^verbatim>\<open>SHOW GRANTS\<close> for another user.\<close>

definition rewrite_grant :: "string \<Rightarrow> string" where
  "rewrite_grant row = escape_percent (split_head '' TO '' row) @ '' TO %s IDENTIFIED BY %s''"

fun grant_loop :: "env \<Rightarrow> nat \<Rightarrow> secret_dict \<Rightarrow> string list \<Rightarrow> unit io" where
  "grant_loop env conn pending_dict [] = return_io ()"
| "grant_loop env conn pending_dict (row # rows) =
    bind_io (getitem pending_dict ''username'') (\<lambda>username.
    bind_io (getitem pending_dict ''password'') (\<lambda>password.
    bind_io (cur_execute env conn (rewrite_grant row) [username, password]) (\<lambda>_.
    grant_loop env conn pending_dict rows)))"

text \<open>Lines 247 to 267: the grants of the current user are replayed for the
  pending user on the master connection.\<close>

definition set_secret_grants :: "env \<Rightarrow> nat \<Rightarrow> secret_dict \<Rightarrow> secret_dict \<Rightarrow> unit io" where
  "set_secret_grants env conn current_dict pending_dict =
    try_finally
      (bind_io (getitem current_dict ''username'') (\<lambda>username.
       bind_io (cur_execute env conn ''SHOW GRANTS FOR %s'' [username]) (\<lambda>rows.
       bind_io (grant_loop env conn pending_dict rows) (\<lambda>_.
       conn_commit env conn))))
      (conn_close env conn)"

text \<open>Lines 221 to 267: the master secret, the check of its host, the login as master.\<close>

definition set_secret_master :: "env \<Rightarrow> secret_dict \<Rightarrow> secret_dict \<Rightarrow> unit io" where
  "set_secret_master env current_dict pending_dict =
    bind_io (getitem current_dict ''masterarn'') (\<lambda>master_arn.
    bind_io (get_secret_dict env master_arn ''AWSCURRENT'' None) (\<lambda>master_dict.
    bind_io (getitem current_dict ''host'') (\<lambda>current_host.
    bind_io (getitem master_dict ''host'') (\<lambda>master_host.
    bind_io (if current_host \<noteq> master_host
             then bind_io (is_rds_replica_database env current_dict master_dict)
                    (\<lambda>is_replica. return_io (\<not> is_replica))
             else return_io False) (\<lambda>untrusted.
    if untrusted
    then raise_io (ValueError (''Current database host '' @ current_host @
           '' is not the same host as/rds replica of master '' @ master_host))
    else
    bind_io (get_connection env master_dict) (\<lambda>conn.
    case conn of
      None \<Rightarrow> raise_io (ValueError
        (''Unable to log into database using credentials in master secret '' @ master_arn))
    | Some c \<Rightarrow> set_secret_grants env c current_dict pending_dict))))))"

text \<open>Lines 172 to 219: what is checked before the master secret is read. The
  result is \<open>None\<close> when the function has returned (the pending password is
  already set), and the two secrets when line 221 is reached.\<close>

definition set_secret_checks ::
  "env \<Rightarrow> string \<Rightarrow> string \<Rightarrow> (secret_dict \<times> secret_dict) option io" where
  "set_secret_checks env arn token =
    bind_io (get_secret_dict env arn ''AWSCURRENT'' None) (\<lambda>current_dict.
    bind_io (get_secret_dict env arn ''AWSPENDING'' (Some token)) (\<lambda>pending_dict.
    bind_io (get_connection env pending_dict) (\<lambda>conn.
    case conn of
      Some c \<Rightarrow> bind_io (conn_close env c) (\<lambda>_. return_io None)
    | None \<Rightarrow>
    bind_io (getitem current_dict ''username'') (\<lambda>current_username.
    bind_io (lift_io (get_alt_username current_username)) (\<lambda>alt_username.
    bind_io (getitem pending_dict ''username'') (\<lambda>pending_username.
    if alt_username \<noteq> pending_username
    then raise_io (ValueError (''Attempting to modify user '' @ pending_username @
           '' other than current user or clone '' @ current_username))
    else
    bind_io (getitem current_dict ''host'') (\<lambda>current_host.
    bind_io (getitem pending_dict ''host'') (\<lambda>pending_host.
    if current_host \<noteq> pending_host
    then raise_io (ValueError (''Attempting to modify user for host '' @ pending_host @
           '' other than current host '' @ current_host))
    else
    bind_io (get_connection env current_dict) (\<lambda>conn.
    case conn of
      None \<Rightarrow> raise_io (ValueError
        (''Unable to log into database using current credentials for secret '' @ arn))
    | Some c \<Rightarrow>
    bind_io (conn_close env c) (\<lambda>_. return_io (Some (current_dict, pending_dict))))))))))))"

definition set_secret :: "env \<Rightarrow> string \<Rightarrow> string \<Rightarrow> unit io" where
  "set_secret env arn token =
    bind_io (set_secret_checks env arn token) (\<lambda>reached.
    case reached of
      None \<Rightarrow> return_io ()
    | Some (current_dict, pending_dict) \<Rightarrow> set_secret_master env current_dict pending_dict)"

subsection \<open>testSecret\<close>

definition test_secret :: "env \<Rightarrow> string \<Rightarrow> string \<Rightarrow> unit io" where
  "test_secret env arn token =
    bind_io (get_secret_dict env arn ''AWSPENDING'' (Some token)) (\<lambda>pending_dict.
    bind_io (get_connection env pending_dict) (\<lambda>conn.
    case conn of
      Some c \<Rightarrow>
        try_finally
          (bind_io (cur_execute env c ''SELECT NOW()'' []) (\<lambda>_. conn_commit env c))
          (conn_close env c)
    | None \<Rightarrow> raise_io (ValueError
        (''Unable to log into database with pending secret of secret ARN '' @ arn))))"

subsection \<open>finishSecret\<close>

text \<open>\<^verbatim>\<open>metadata['VersionIdsToStages']\<close>.\<close>

definition version_stages :: "metadata \<Rightarrow> (string \<times> string list) list io" where
  "version_stages md =
    (case VersionIdsToStages md of
       None \<Rightarrow> raise_io (KeyError ''VersionIdsToStages'') | Some versions \<Rightarrow> return_io versions)"

text \<open>The loop of lines 337 to 347 stops at the first version, in the order of
  the dictionary, whose stages hold \<^verbatim>\<open>AWSCURRENT\<close>.\<close>

fun first_current :: "(string \<times> string list) list \<Rightarrow> string option" where
  "first_current [] = None"
| "first_current ((version, stages) # rest) =
    (if ''AWSCURRENT'' \<in> set stages then Some version else first_current rest)"

definition finish_secret :: "env \<Rightarrow> string \<Rightarrow> string \<Rightarrow> unit io" where
  "finish_secret env arn token =
    bind_io (perform (DescribeSecret arn) (\<lambda>t. sm_describe_secret env t arn)) (\<lambda>md.
    bind_io (version_stages md) (\<lambda>versions.
    let found = first_current versions in
    if found = Some token then return_io ()
    else
      perform (UpdateSecretVersionStage arn ''AWSCURRENT'' token found)
        (\<lambda>t. sm_update_secret_version_stage env t arn ''AWSCURRENT'' token found)))"

subsection \<open>The handler\<close>

definition lambda_handler :: "env \<Rightarrow> rotation_event \<Rightarrow> unit io" where
  "lambda_handler env event =
    (let arn = SecretId event; token = ClientRequestToken event; step = Step event in
     bind_io (getitem (environ env) ''SECRETS_MANAGER_ENDPOINT'') (\<lambda>endpoint_url.
     bind_io (perform (DescribeSecret arn) (\<lambda>t. sm_describe_secret env t arn)) (\<lambda>md.
     if RotationEnabled md = Some False
     then raise_io (ValueError (''Secret '' @ arn @ '' is not enabled for rotation''))
     else
     bind_io (version_stages md) (\<lambda>versions.
     case map_of versions token of
       None \<Rightarrow> raise_io (ValueError (''Secret version '' @ token @
                 '' has no stage for rotation of secret '' @ arn @ ''.''))
     | Some stages \<Rightarrow>
         if ''AWSCURRENT'' \<in> set stages then return_io ()
         else if ''AWSPENDING'' \<notin> set stages
         then raise_io (ValueError (''Secret version '' @ token @
                 '' not set as AWSPENDING for rotation of secret '' @ arn @ ''.''))
         else if step = ''createSecret'' then create_secret env arn token
         else if step = ''setSecret'' then set_secret env arn token
         else if step = ''testSecret'' then test_secret env arn token
         else if step = ''finishSecret'' then finish_secret env arn token
         else raise_io (ValueError (''Invalid step parameter '' @ step @ '' for secret '' @ arn))))))"

subsection \<open>Reading a list of effects\<close>

fun is_store_write :: "effect \<Rightarrow> bool" where
  "is_store_write (PutSecretValue _ _ _ _) = True"
| "is_store_write (UpdateSecretVersionStage _ _ _ _) = True"
| "is_store_write _ = False"

fun is_password_generation :: "effect \<Rightarrow> bool" where
  "is_password_generation (GetRandomPassword _) = True"
| "is_password_generation _ = False"

fun is_statement :: "effect \<Rightarrow> bool" where
  "is_statement (Execute _ _ _) = True"
| "is_statement (Commit _) = True"
| "is_statement _ = False"

fun is_commit :: "effect \<Rightarrow> bool" where
  "is_commit (Commit _) = True"
| "is_commit _ = False"

text \<open>A run that performs no statement on the database (used for the checks
  that precede the master login).\<close>

definition quiet :: "'a io \<Rightarrow> bool" where
  "quiet m = (\<forall>t. \<exists>new. snd (m t) = t @ new \<and> filter is_statement new = [])"

subsection \<open>The stage labels held by the store\<close>

definition current_versions :: "(string \<times> string list) list \<Rightarrow> string list" where
  "current_versions versions =
     map fst (filter (\<lambda>(version, stages). ''AWSCURRENT'' \<in> set stages) versions)"

text \<open>Modelled from the spec: the store's operation that moves a stage label
  (section 6, ``move the CURRENT label atomically from one version to
  another''). The store is a collaborator and not part of the repository;
  \<open>finish_secret\<close> only issues the request. The label is taken from the
  version named in \<^verbatim>\<open>RemoveFromVersionId\<close> and given to the version named in
  \<^verbatim>\<open>MoveToVersionId\<close>.\<close>

definition move_stage ::
  "string \<Rightarrow> string \<Rightarrow> string option \<Rightarrow> (string \<times> string list) list \<Rightarrow> (string \<times> string list) list" where
  "move_stage stage move_to remove_from versions =
     map (\<lambda>(version, stages).
            (version,
             if version = move_to then (if stage \<in> set stages then stages else stages @ [stage])
             else if Some version = remove_from then removeAll stage stages
             else stages))
         versions"

subsection \<open>A small world to run the functions in\<close>

definition demo_current :: secret_dict where
  "demo_current =
     [(''engine'', ''mariadb''), (''host'', ''db1.example.com''), (''username'', ''app_user''),
      (''password'', ''old''), (''masterarn'', ''master-arn'')]"

definition demo_pending :: secret_dict where
  "demo_pending =
     [(''engine'', ''mariadb''), (''host'', ''db1.example.com''), (''username'', ''app_user_clone''),
      (''password'', ''new''), (''masterarn'', ''master-arn'')]"

definition demo_master :: secret_dict where
  "demo_master =
     [(''engine'', ''mariadb''), (''host'', ''db0.example.com''), (''username'', ''admin''),
      (''password'', ''root'')]"

definition demo_long_user :: secret_dict where
  "demo_long_user =
     [(''engine'', ''mariadb''), (''host'', ''db1.example.com''),
      (''username'', ''aaaaaaaaaabbbbbbbbbbccccccccccddddddddddeeeeeeeeeeffffffffffgggggggggghhhhh''),
      (''password'', ''old'')]"

definition demo_versions :: "(string \<times> string list) list" where
  "demo_versions = [(''v0'', [''AWSPREVIOUS'']), (''v1'', [''AWSCURRENT'']), (''v2'', [''AWSPENDING''])]"

text \<open>The world answers the same whatever happened before. The secret
  \<^verbatim>\<open>master-arn\<close> holds \<open>demo_master\<close>; the rotated secret holds \<open>current\<close>
  at \<^verbatim>\<open>AWSCURRENT\<close> and \<open>pending\<close> at \<^verbatim>\<open>AWSPENDING\<close>. Only the pending user
  cannot log in, and the inventory knows no instance.\<close>

definition demo_env :: "secret_dict \<Rightarrow> error + secret_dict \<Rightarrow> env" where
  "demo_env current pending =
    \<lparr> environ = [(''SECRETS_MANAGER_ENDPOINT'', ''https://secretsmanager.example.com'')],
      sm_describe_secret =
        (\<lambda>t arn. Inr \<lparr> RotationEnabled = Some True, VersionIdsToStages = Some demo_versions \<rparr>),
      sm_get_secret_value =
        (\<lambda>t arn token stage.
           if arn = ''master-arn'' then Inr ''M''
           else if stage = ''AWSCURRENT'' then Inr ''C''
           else (case pending of Inl e \<Rightarrow> Inl e | Inr _ \<Rightarrow> Inr ''P'')),
      sm_get_random_password = (\<lambda>t exclude. Inr ''fresh''),
      sm_put_secret_value = (\<lambda>t arn token secret stages. Inr ()),
      sm_update_secret_version_stage = (\<lambda>t arn stage move_to remove_from. Inr ()),
      json_loads =
        (\<lambda>s. if s = ''C'' then Inr current else if s = ''M'' then Inr demo_master else pending),
      json_dumps = (\<lambda>d. concat (map (\<lambda>(k, v). k @ ''='' @ v @ '';'') d)),
      py_int = (\<lambda>s. Inr 3306),
      db_connect =
        (\<lambda>t host user passwd port dbname timeout.
           if user = ''app_user_clone'' then Inl OperationalError else Inr ()),
      db_close = (\<lambda>t conn. Inr ()),
      db_execute =
        (\<lambda>t conn query args.
           if query = ''SHOW GRANTS FOR %s''
           then Inr [''GRANT USAGE ON *.* TO app_user'', ''GRANT SELECT ON shop.* TO app_user'']
           else Inr []),
      db_commit = (\<lambda>t conn. Inr ()),
      rds_describe_db_instances = (\<lambda>t instance. Inr []) \<rparr>"

section \<open>Properties\<close>

subsection \<open>Facts about the building blocks\<close>

lemmas io_defs =
  bind_io_def return_io_def raise_io_def lift_io_def perform_def getitem_def

lemmas demo_defs =
  demo_env_def demo_current_def demo_pending_def demo_master_def demo_long_user_def
  demo_versions_def

lemma endswith_append: "endswith (p @ s) s"
  by (simp add: endswith_def)

lemma endswith_iff: "endswith u s \<longleftrightarrow> (\<exists>p. u = p @ s)"
proof
  assume "endswith u s"
  then have "u = take (length u - length s) u @ s"
    by (metis append_take_drop_id endswith_def)
  then show "\<exists>p. u = p @ s" ..
next
  assume "\<exists>p. u = p @ s"
  then show "endswith u s"
    by (auto simp: endswith_append)
qed

lemma get_secret_dict_trace:
  "snd (get_secret_dict env arn stage token t) =
     t @ [GetSecretValue arn (if token = Some [] then None else token) stage]"
  by (auto simp: get_secret_dict_def io_defs split: sum.splits option.splits prod.splits)

lemma get_secret_dict_traceD:
  "get_secret_dict env arn stage token t = (r, t') \<Longrightarrow>
     t' = t @ [GetSecretValue arn (if token = Some [] then None else token) stage]"
  using get_secret_dict_trace [of env arn stage token t] by simp

lemma get_secret_dict_valid:
  assumes "get_secret_dict env arn stage token t = (Inr d, t')"
  shows "map_of d ''engine'' = Some ''mariadb''"
    and "map_of d ''host'' \<noteq> None"
    and "map_of d ''username'' \<noteq> None"
    and "map_of d ''password'' \<noteq> None"
  using assms
  by (auto simp: get_secret_dict_def io_defs required_fields_def
      split: sum.splits option.splits prod.splits if_splits)

lemma map_of_keys: "map_of d k = Some v \<Longrightarrow> k \<in> fst ` set d"
  by (metis domI dom_map_of_conv_image_fst)

subsection \<open>The alternate user name\<close>

text \<open>
  C10. The branch of \<open>get_alt_username\<close> that strips the suffix checks nothing
  about what is left: every name \<open>p @ ''_clone''\<close> is answered with \<open>p\<close>,
  whatever its length, and the name \<open>''_clone''\<close> with the empty string.
\<close>

theorem get_alt_username_strips_suffix:
  "get_alt_username (p @ ''_clone'') = Inr p \<and> get_alt_username ''_clone'' = Inr ''''"
  by (simp add: get_alt_username_def clone_suffix_def endswith_def)

theorem get_alt_username_strips_suffix_witness:
  "get_alt_username ''app_user_clone'' = Inr ''app_user'' \<and> get_alt_username ''_clone'' = Inr ''''"
  using get_alt_username_strips_suffix [of "''app_user''"] by simp

text \<open>
  C5. \<open>get_alt_username\<close> is not an involution on every name it accepts: a
  name that ends in the suffix twice is stripped twice.
\<close>

theorem get_alt_username_not_involution:
  "get_alt_username ''a_clone_clone'' = Inr ''a_clone'' \<and>
   get_alt_username ''a_clone'' = Inr ''a'' \<and> ''a'' \<noteq> ''a_clone_clone''"
  by (simp add: get_alt_username_def clone_suffix_def endswith_def)

text \<open>
  C5, as amended. For a name of at most 80 characters that does not end in
  \<open>''_clone_clone''\<close>: when \<open>get_alt_username\<close> accepts it, the second
  application succeeds and gives the name back.
\<close>

theorem get_alt_username_involution:
  assumes "length u \<le> 80"
    and "\<not> endswith u (clone_suffix @ clone_suffix)"
    and "get_alt_username u = Inr v"
  shows "get_alt_username v = Inr u"
proof (cases "endswith u clone_suffix")
  case True
  then obtain p where u: "u = p @ clone_suffix"
    by (auto simp: endswith_iff)
  with assms(3) have v: "v = p"
    by (simp add: get_alt_username_def endswith_append)
  have "\<not> endswith p clone_suffix"
  proof
    assume "endswith p clone_suffix"
    then obtain q where "p = q @ clone_suffix"
      by (auto simp: endswith_iff)
    with u have "u = q @ (clone_suffix @ clone_suffix)"
      by simp
    with assms(2) show False
      by (metis endswith_append)
  qed
  with assms(1) u v show ?thesis
    by (simp add: get_alt_username_def)
next
  case False
  with assms(3) have "v = u @ clone_suffix"
    by (auto simp: get_alt_username_def Let_def split: if_splits)
  then show ?thesis
    by (simp add: get_alt_username_def endswith_append)
qed

theorem get_alt_username_involution_witness:
  "length ''app_user'' \<le> 80 \<and> \<not> endswith ''app_user'' (clone_suffix @ clone_suffix) \<and>
   get_alt_username ''app_user'' = Inr ''app_user_clone'' \<and>
   get_alt_username ''app_user_clone'' = Inr ''app_user''"
proof -
  have h1: "length ''app_user'' \<le> 80"
    by simp
  have h2: "\<not> endswith ''app_user'' (clone_suffix @ clone_suffix)"
    by (simp add: endswith_def clone_suffix_def)
  have h3: "get_alt_username ''app_user'' = Inr ''app_user_clone''"
    by (simp add: get_alt_username_def endswith_def clone_suffix_def)
  from get_alt_username_involution [OF h1 h2 h3] h1 h2 h3 show ?thesis
    by simp
qed

subsection \<open>createSecret\<close>

text \<open>
  C6. \<open>get_alt_username u\<close> does not fail whenever
  \<open>length u + length ''_clone'' > 80\<close>: a name of 80 characters that ends
  in the suffix is stripped, not rejected.
\<close>

theorem username_too_long_counterexample:
  "80 < length (replicate 74 (CHR ''a'') @ ''_clone'') + length ''_clone'' \<and>
   get_alt_username (replicate 74 (CHR ''a'') @ ''_clone'') = Inr (replicate 74 (CHR ''a''))"
  by (simp add: get_alt_username_def clone_suffix_def endswith_def)

text \<open>
  C6, as amended. \<open>get_alt_username u\<close> fails, with the error that the name
  would be too long, exactly when \<open>u\<close> does not end in the suffix and
  \<open>length u + length ''_clone'' > 80\<close>. When \<open>create_secret\<close> finds no
  pending secret and the name of the current secret is rejected so,
  \<open>create_secret\<close> fails with that error having asked for no random password
  and written nothing to the store.
\<close>

theorem username_too_long_iff:
  "((\<exists>e. get_alt_username u = Inl e) =
      (\<not> endswith u clone_suffix \<and> 80 < length u + length clone_suffix)) \<and>
   ((\<exists>e. get_alt_username u = Inl e) = (get_alt_username u = Inl username_too_long)) \<and>
   (get_secret_dict env arn ''AWSCURRENT'' None t = (Inr current_dict, t1) \<longrightarrow>
    get_secret_dict env arn ''AWSPENDING'' (Some token) t1 = (Inl ResourceNotFoundException, t2) \<longrightarrow>
    map_of current_dict ''username'' = Some u \<longrightarrow>
    get_alt_username u = Inl username_too_long \<longrightarrow>
      create_secret env arn token t = (Inl username_too_long, t2) \<and>
      filter is_password_generation (drop (length t) t2) = [] \<and>
      filter is_store_write (drop (length t) t2) = [])"
proof (intro conjI impI)
  show "(\<exists>e. get_alt_username u = Inl e) =
      (\<not> endswith u clone_suffix \<and> 80 < length u + length clone_suffix)"
    by (simp add: get_alt_username_def Let_def)
  show "(\<exists>e. get_alt_username u = Inl e) = (get_alt_username u = Inl username_too_long)"
    by (simp add: get_alt_username_def Let_def)
next
  assume g1: "get_secret_dict env arn ''AWSCURRENT'' None t = (Inr current_dict, t1)"
    and g2: "get_secret_dict env arn ''AWSPENDING'' (Some token) t1 = (Inl ResourceNotFoundException, t2)"
    and u: "map_of current_dict ''username'' = Some u"
    and f: "get_alt_username u = Inl username_too_long"
  show "create_secret env arn token t = (Inl username_too_long, t2)"
    using g1 g2 u f by (simp add: create_secret_def io_defs)
  have "drop (length t) t2 = [GetSecretValue arn None ''AWSCURRENT'',
      GetSecretValue arn (if Some token = Some [] then None else Some token) ''AWSPENDING'']"
    using get_secret_dict_traceD [OF g1] get_secret_dict_traceD [OF g2] by simp
  then show "filter is_password_generation (drop (length t) t2) = []"
    and "filter is_store_write (drop (length t) t2) = []"
    by simp_all
qed

theorem username_too_long_iff_witness:
  "get_alt_username ''aaaaaaaaaabbbbbbbbbbccccccccccddddddddddeeeeeeeeeeffffffffffgggggggggghhhhh''
     = Inl username_too_long \<and>
   create_secret (demo_env demo_long_user (Inl ResourceNotFoundException)) ''arn'' ''v2'' [] =
     (Inl username_too_long,
      [GetSecretValue ''arn'' None ''AWSCURRENT'', GetSecretValue ''arn'' (Some ''v2'') ''AWSPENDING''])"
proof -
  let ?u = "''aaaaaaaaaabbbbbbbbbbccccccccccddddddddddeeeeeeeeeeffffffffffgggggggggghhhhh''"
  let ?env = "demo_env demo_long_user (Inl ResourceNotFoundException)"
  let ?t1 = "[GetSecretValue ''arn'' None ''AWSCURRENT'']"
  let ?t2 = "[GetSecretValue ''arn'' None ''AWSCURRENT'', GetSecretValue ''arn'' (Some ''v2'') ''AWSPENDING'']"
  have f: "get_alt_username ?u = Inl username_too_long"
    by (simp add: get_alt_username_def endswith_def clone_suffix_def)
  have g1: "get_secret_dict ?env ''arn'' ''AWSCURRENT'' None [] = (Inr demo_long_user, ?t1)"
    by (simp add: get_secret_dict_def io_defs demo_defs required_fields_def)
  have g2: "get_secret_dict ?env ''arn'' ''AWSPENDING'' (Some ''v2'') ?t1 =
      (Inl ResourceNotFoundException, ?t2)"
    by (simp add: get_secret_dict_def io_defs demo_defs required_fields_def)
  have u: "map_of demo_long_user ''username'' = Some ?u"
    by (simp add: demo_defs)
  from username_too_long_iff [of ?u ?env "''arn''" "[]" demo_long_user ?t1 "''v2''" ?t2] f g1 g2 u
  show ?thesis
    by simp
qed

text \<open>
  C7. \<open>create_secret\<close> with the current secret read as \<open>current_dict\<close>. When
  a pending secret is found at the token, it succeeds and writes nothing to
  the store. When the store answers that there is none, the only write is one
  \<open>PutSecretValue\<close> at the token under \<^verbatim>\<open>AWSPENDING\<close>, whose payload is the
  current dictionary with \<open>username\<close> set to the alternate name and \<open>password\<close>
  set to the password the store has just generated: every other key keeps its
  value, and the keys and their order are those of the current dictionary.
\<close>

theorem create_secret_frame:
  assumes g1: "get_secret_dict env arn ''AWSCURRENT'' None t = (Inr current_dict, t1)"
  shows "(get_secret_dict env arn ''AWSPENDING'' (Some token) t1 = (Inr pending_dict, t2) \<longrightarrow>
            create_secret env arn token t = (Inr (), t2) \<and>
            filter is_store_write (drop (length t) t2) = []) \<and>
         (get_secret_dict env arn ''AWSPENDING'' (Some token) t1 = (Inl ResourceNotFoundException, t2) \<longrightarrow>
          map_of current_dict ''username'' = Some u \<longrightarrow>
          get_alt_username u = Inr alt \<longrightarrow>
          sm_get_random_password env t2 (exclude_characters env) = Inr passwd \<longrightarrow>
          (let new_dict = AList.update ''password'' passwd (AList.update ''username'' alt current_dict);
               generate = GetRandomPassword (exclude_characters env);
               put = PutSecretValue arn token (json_dumps env new_dict) [''AWSPENDING'']
           in create_secret env arn token t =
                (sm_put_secret_value env (t2 @ [generate]) arn token (json_dumps env new_dict)
                   [''AWSPENDING''],
                 t2 @ [generate, put]) \<and>
              filter is_store_write (drop (length t) (t2 @ [generate, put])) = [put] \<and>
              map_of new_dict ''username'' = Some alt \<and>
              map_of new_dict ''password'' = Some passwd \<and>
              (\<forall>k. k \<noteq> ''username'' \<and> k \<noteq> ''password'' \<longrightarrow>
                   map_of new_dict k = map_of current_dict k) \<and>
              map fst new_dict = map fst current_dict))"
proof (intro conjI impI)
  assume g2: "get_secret_dict env arn ''AWSPENDING'' (Some token) t1 = (Inr pending_dict, t2)"
  show "create_secret env arn token t = (Inr (), t2)"
    using g1 g2 by (simp add: create_secret_def bind_io_def)
  have "drop (length t) t2 = [GetSecretValue arn None ''AWSCURRENT'',
      GetSecretValue arn (if Some token = Some [] then None else Some token) ''AWSPENDING'']"
    using get_secret_dict_traceD [OF g1] get_secret_dict_traceD [OF g2] by simp
  then show "filter is_store_write (drop (length t) t2) = []"
    by simp
next
  assume g2: "get_secret_dict env arn ''AWSPENDING'' (Some token) t1 = (Inl ResourceNotFoundException, t2)"
    and u: "map_of current_dict ''username'' = Some u"
    and a: "get_alt_username u = Inr alt"
    and p: "sm_get_random_password env t2 (exclude_characters env) = Inr passwd"
  let ?new = "AList.update ''password'' passwd (AList.update ''username'' alt current_dict)"
  let ?gen = "GetRandomPassword (exclude_characters env)"
  let ?put = "PutSecretValue arn token (json_dumps env ?new) [''AWSPENDING'']"
  have run: "create_secret env arn token t =
      (sm_put_secret_value env (t2 @ [?gen]) arn token (json_dumps env ?new) [''AWSPENDING''],
       t2 @ [?gen, ?put])"
    using g1 g2 u a p by (simp add: create_secret_def io_defs Let_def)
  have t2: "drop (length t) t2 = [GetSecretValue arn None ''AWSCURRENT'',
      GetSecretValue arn (if Some token = Some [] then None else Some token) ''AWSPENDING'']"
    and len: "length t \<le> length t2"
    using get_secret_dict_traceD [OF g1] get_secret_dict_traceD [OF g2] by simp_all
  have writes: "filter is_store_write (drop (length t) (t2 @ [?gen, ?put])) = [?put]"
    using t2 len by simp
  have k1: "''username'' \<in> fst ` set current_dict"
    using u by (rule map_of_keys)
  obtain pw where "map_of current_dict ''password'' = Some pw"
    using get_secret_dict_valid(4) [OF g1] by auto
  then have k2: "''password'' \<in> fst ` set current_dict"
    by (rule map_of_keys)
  have keys: "map fst ?new = map fst current_dict"
    using k1 k2 by (simp add: update_keys)
  show "let new_dict = ?new; generate = ?gen;
            put = PutSecretValue arn token (json_dumps env new_dict) [''AWSPENDING'']
        in create_secret env arn token t =
             (sm_put_secret_value env (t2 @ [generate]) arn token (json_dumps env new_dict)
                [''AWSPENDING''],
              t2 @ [generate, put]) \<and>
           filter is_store_write (drop (length t) (t2 @ [generate, put])) = [put] \<and>
           map_of new_dict ''username'' = Some alt \<and>
           map_of new_dict ''password'' = Some passwd \<and>
           (\<forall>k. k \<noteq> ''username'' \<and> k \<noteq> ''password'' \<longrightarrow>
                map_of new_dict k = map_of current_dict k) \<and>
           map fst new_dict = map fst current_dict"
    unfolding Let_def using run writes keys by (simp add: update_conv')
qed

theorem create_secret_frame_witness:
  "create_secret (demo_env demo_current (Inr demo_pending)) ''arn'' ''v2'' [] =
     (Inr (), [GetSecretValue ''arn'' None ''AWSCURRENT'',
               GetSecretValue ''arn'' (Some ''v2'') ''AWSPENDING'']) \<and>
   create_secret (demo_env demo_current (Inl ResourceNotFoundException)) ''arn'' ''v2'' [] =
     (Inr (), [GetSecretValue ''arn'' None ''AWSCURRENT'',
               GetSecretValue ''arn'' (Some ''v2'') ''AWSPENDING'',
               GetRandomPassword default_exclude_characters,
               PutSecretValue ''arn'' ''v2''
                 ''engine=mariadb;host=db1.example.com;username=app_user_clone;password=fresh;masterarn=master-arn;''
                 [''AWSPENDING'']])"
proof -
  let ?found = "demo_env demo_current (Inr demo_pending)"
  let ?absent = "demo_env demo_current (Inl ResourceNotFoundException)"
  let ?t1 = "[GetSecretValue ''arn'' None ''AWSCURRENT'']"
  let ?t2 = "[GetSecretValue ''arn'' None ''AWSCURRENT'', GetSecretValue ''arn'' (Some ''v2'') ''AWSPENDING'']"
  have f1: "get_secret_dict ?found ''arn'' ''AWSCURRENT'' None [] = (Inr demo_current, ?t1)"
    by (simp add: get_secret_dict_def io_defs demo_defs required_fields_def)
  have f2: "get_secret_dict ?found ''arn'' ''AWSPENDING'' (Some ''v2'') ?t1 = (Inr demo_pending, ?t2)"
    by (simp add: get_secret_dict_def io_defs demo_defs required_fields_def)
  have a1: "get_secret_dict ?absent ''arn'' ''AWSCURRENT'' None [] = (Inr demo_current, ?t1)"
    by (simp add: get_secret_dict_def io_defs demo_defs required_fields_def)
  have a2: "get_secret_dict ?absent ''arn'' ''AWSPENDING'' (Some ''v2'') ?t1 =
      (Inl ResourceNotFoundException, ?t2)"
    by (simp add: get_secret_dict_def io_defs demo_defs required_fields_def)
  have u: "map_of demo_current ''username'' = Some ''app_user''"
    by (simp add: demo_defs)
  have alt: "get_alt_username ''app_user'' = Inr ''app_user_clone''"
    by (simp add: get_alt_username_def endswith_def clone_suffix_def)
  have p: "sm_get_random_password ?absent ?t2 (exclude_characters ?absent) = Inr ''fresh''"
    by (simp add: demo_defs)
  have ex: "exclude_characters ?absent = default_exclude_characters"
    by (simp add: exclude_characters_def demo_defs)
  from create_secret_frame [OF f1, of "''v2''" demo_pending ?t2] f2
  have found: "create_secret ?found ''arn'' ''v2'' [] = (Inr (), ?t2)"
    by simp
  from create_secret_frame [OF a1, of "''v2''" demo_pending ?t2 "''app_user''" "''app_user_clone''" "''fresh''"]
    a2 u alt p
  have absent: "create_secret ?absent ''arn'' ''v2'' [] =
     (Inr (), ?t2 @ [GetRandomPassword default_exclude_characters,
               PutSecretValue ''arn'' ''v2''
                 ''engine=mariadb;host=db1.example.com;username=app_user_clone;password=fresh;masterarn=master-arn;''
                 [''AWSPENDING'']])"
    by (simp add: Let_def ex) (simp add: demo_defs)
  from found absent show ?thesis
    by simp
qed


subsection \<open>The replica check\<close>

lemma split_head_dot:
  "CHR ''.'' \<notin> set (split_head ''.'' h) \<and>
   (h = split_head ''.'' h \<or> (\<exists>rest. h = split_head ''.'' h @ ''.'' @ rest))"
proof (induction h)
  case Nil
  show ?case by simp
next
  case (Cons c cs)
  show ?case
  proof (cases "c = CHR ''.''")
    case True
    then show ?thesis by (simp add: startswith_def)
  next
    case False
    with Cons show ?thesis by (auto simp: startswith_def)
  qed
qed

text \<open>
  C4. The identifier of an instance is the part of its host name before the
  first \<open>''.''\<close>. \<open>is_rds_replica_database\<close> asks the inventory once, for
  the identifier of the candidate, and never raises: it answers \<open>False\<close> when
  the inventory raises an error or returns no instance, and otherwise answers
  whether the replication source recorded for the first instance is the
  identifier of the master.
\<close>

theorem is_rds_replica_database_result:
  assumes "map_of replica_dict ''host'' = Some replica_host"
    and "map_of master_dict ''host'' = Some master_host"
  shows "CHR ''.'' \<notin> set (instance_id h) \<and>
    (h = instance_id h \<or> (\<exists>rest. h = instance_id h @ ''.'' @ rest)) \<and>
    snd (is_rds_replica_database env replica_dict master_dict t) =
      t @ [DescribeDBInstances (instance_id replica_host)] \<and>
    (\<forall>err. rds_describe_db_instances env t (instance_id replica_host) = Inl err \<longrightarrow>
       fst (is_rds_replica_database env replica_dict master_dict t) = Inr False) \<and>
    (rds_describe_db_instances env t (instance_id replica_host) = Inr [] \<longrightarrow>
       fst (is_rds_replica_database env replica_dict master_dict t) = Inr False) \<and>
    (\<forall>current_instance rest.
       rds_describe_db_instances env t (instance_id replica_host) = Inr (current_instance # rest) \<longrightarrow>
       fst (is_rds_replica_database env replica_dict master_dict t) =
         Inr (ReadReplicaSourceDBInstanceIdentifier current_instance = Some (instance_id master_host)))"
proof -
  have ids: "CHR ''.'' \<notin> set (instance_id h) \<and>
      (h = instance_id h \<or> (\<exists>rest. h = instance_id h @ ''.'' @ rest))"
    unfolding instance_id_def by (rule split_head_dot)
  have run: "is_rds_replica_database env replica_dict master_dict t =
      (case rds_describe_db_instances env t (instance_id replica_host) of
         Inl err \<Rightarrow> (Inr False, t @ [DescribeDBInstances (instance_id replica_host)])
       | Inr [] \<Rightarrow> (Inr False, t @ [DescribeDBInstances (instance_id replica_host)])
       | Inr (current_instance # _) \<Rightarrow>
           (Inr (Some (instance_id master_host) =
                   ReadReplicaSourceDBInstanceIdentifier current_instance),
            t @ [DescribeDBInstances (instance_id replica_host)]))"
    using assms by (simp add: is_rds_replica_database_def io_defs Let_def)
  show ?thesis
    using ids by (auto simp: run split: sum.splits list.splits)
qed

theorem is_rds_replica_database_result_witness:
  "instance_id ''db1.example.com'' = ''db1'' \<and>
   is_rds_replica_database (demo_env demo_current (Inr demo_pending)) demo_current demo_master [] =
     (Inr False, [DescribeDBInstances ''db1'']) \<and>
   is_rds_replica_database
     (demo_env demo_current (Inr demo_pending)
        \<lparr> rds_describe_db_instances :=
            (\<lambda>t instance. Inr [\<lparr> ReadReplicaSourceDBInstanceIdentifier = Some ''db0'' \<rparr>]) \<rparr>)
     demo_current demo_master [] =
     (Inr True, [DescribeDBInstances ''db1''])"
proof -
  let ?env = "demo_env demo_current (Inr demo_pending)"
  let ?replica = "?env \<lparr> rds_describe_db_instances :=
      (\<lambda>t instance. Inr [\<lparr> ReadReplicaSourceDBInstanceIdentifier = Some ''db0'' \<rparr>]) \<rparr>"
  have h1: "map_of demo_current ''host'' = Some ''db1.example.com''"
    by (simp add: demo_defs)
  have h2: "map_of demo_master ''host'' = Some ''db0.example.com''"
    by (simp add: demo_defs)
  have i1: "instance_id ''db1.example.com'' = ''db1''"
    and i0: "instance_id ''db0.example.com'' = ''db0''"
    by (simp_all add: instance_id_def startswith_def)
  have none: "rds_describe_db_instances ?env [] ''db1'' = Inr []"
    by (simp add: demo_defs)
  have some: "rds_describe_db_instances ?replica [] ''db1'' =
      Inr [\<lparr> ReadReplicaSourceDBInstanceIdentifier = Some ''db0'' \<rparr>]"
    by (simp add: demo_defs)
  from is_rds_replica_database_result [OF h1 h2, of "''db1.example.com''" ?env "[]"] none
  have a: "is_rds_replica_database ?env demo_current demo_master [] =
      (Inr False, [DescribeDBInstances ''db1''])"
    by (simp add: i1 prod_eq_iff)
  from is_rds_replica_database_result [OF h1 h2, of "''db1.example.com''" ?replica "[]"] some
  have b: "is_rds_replica_database ?replica demo_current demo_master [] =
      (Inr True, [DescribeDBInstances ''db1''])"
    by (simp add: i1 i0 prod_eq_iff)
  from i1 a b show ?thesis
    by simp
qed

subsection \<open>The gate of the handler\<close>

text \<open>
  C9. A request that has passed the tests of lines 59 to 70 and whose token
  holds \<^verbatim>\<open>AWSCURRENT\<close>: the handler returns successfully after the one
  \<open>DescribeSecret\<close> call, whatever the step is. No step function runs, and
  an unknown step does not make it raise.
\<close>

theorem lambda_handler_current_noop:
  assumes "map_of (environ env) ''SECRETS_MANAGER_ENDPOINT'' = Some endpoint_url"
    and "sm_describe_secret env t arn = Inr md"
    and "RotationEnabled md \<noteq> Some False"
    and "VersionIdsToStages md = Some versions"
    and "map_of versions token = Some stages"
    and "''AWSCURRENT'' \<in> set stages"
  shows "lambda_handler env \<lparr> SecretId = arn, ClientRequestToken = token, Step = step \<rparr> t =
           (Inr (), t @ [DescribeSecret arn])"
  using assms by (simp add: lambda_handler_def version_stages_def io_defs)

theorem lambda_handler_current_noop_witness:
  "lambda_handler (demo_env demo_current (Inr demo_pending))
     \<lparr> SecretId = ''arn'', ClientRequestToken = ''v1'', Step = ''no such step'' \<rparr> [] =
     (Inr (), [DescribeSecret ''arn''])"
proof -
  let ?env = "demo_env demo_current (Inr demo_pending)"
  let ?md = "\<lparr> RotationEnabled = Some True, VersionIdsToStages = Some demo_versions \<rparr>"
  have h1: "map_of (environ ?env) ''SECRETS_MANAGER_ENDPOINT'' = Some ''https://secretsmanager.example.com''"
    by (simp add: demo_defs)
  have h2: "sm_describe_secret ?env [] ''arn'' = Inr ?md"
    by (simp add: demo_defs)
  have h3: "RotationEnabled ?md \<noteq> Some False"
    by simp
  have h4: "VersionIdsToStages ?md = Some demo_versions"
    by simp
  have h5: "map_of demo_versions ''v1'' = Some [''AWSCURRENT'']"
    by (simp add: demo_defs)
  have h6: "''AWSCURRENT'' \<in> set [''AWSCURRENT'']"
    by simp
  from lambda_handler_current_noop [OF h1 h2 h3 h4 h5 h6, of "''no such step''"] show ?thesis
    by simp
qed

text \<open>
  C1. The handler first asks the store to describe the secret; what follows
  depends on the answer \<open>md\<close> only. It raises when rotation is explicitly
  disabled, and when the token has no entry among the versions. When the
  token's stages hold \<^verbatim>\<open>AWSCURRENT\<close> it returns successfully, having done
  nothing else. When they hold neither \<^verbatim>\<open>AWSCURRENT\<close> nor \<^verbatim>\<open>AWSPENDING\<close> it
  raises. In all these cases no step function runs. Otherwise the step
  function named by the step runs, after the \<open>DescribeSecret\<close> call, and a
  step with another name raises.
\<close>

theorem lambda_handler_gate:
  assumes "map_of (environ env) ''SECRETS_MANAGER_ENDPOINT'' = Some endpoint_url"
    and "sm_describe_secret env t arn = Inr md"
  shows
    "(let event = \<lparr> SecretId = arn, ClientRequestToken = token, Step = step \<rparr>;
          t1 = t @ [DescribeSecret arn] in
      (RotationEnabled md = Some False \<longrightarrow>
         lambda_handler env event t =
           (Inl (ValueError (''Secret '' @ arn @ '' is not enabled for rotation'')), t1)) \<and>
      (RotationEnabled md \<noteq> Some False \<longrightarrow> (\<forall>versions. VersionIdsToStages md = Some versions \<longrightarrow>
         (map_of versions token = None \<longrightarrow>
            lambda_handler env event t =
              (Inl (ValueError (''Secret version '' @ token @
                 '' has no stage for rotation of secret '' @ arn @ ''.'')), t1)) \<and>
         (\<forall>stages. map_of versions token = Some stages \<longrightarrow>
            (''AWSCURRENT'' \<in> set stages \<longrightarrow> lambda_handler env event t = (Inr (), t1)) \<and>
            (''AWSCURRENT'' \<notin> set stages \<and> ''AWSPENDING'' \<notin> set stages \<longrightarrow>
               lambda_handler env event t =
                 (Inl (ValueError (''Secret version '' @ token @
                    '' not set as AWSPENDING for rotation of secret '' @ arn @ ''.'')), t1)) \<and>
            (''AWSCURRENT'' \<notin> set stages \<and> ''AWSPENDING'' \<in> set stages \<longrightarrow>
               (step = ''createSecret'' \<longrightarrow>
                  lambda_handler env event t = create_secret env arn token t1) \<and>
               (step = ''setSecret'' \<longrightarrow>
                  lambda_handler env event t = set_secret env arn token t1) \<and>
               (step = ''testSecret'' \<longrightarrow>
                  lambda_handler env event t = test_secret env arn token t1) \<and>
               (step = ''finishSecret'' \<longrightarrow>
                  lambda_handler env event t = finish_secret env arn token t1) \<and>
               (step \<notin> {''createSecret'', ''setSecret'', ''testSecret'', ''finishSecret''} \<longrightarrow>
                  lambda_handler env event t =
                    (Inl (ValueError (''Invalid step parameter '' @ step @ '' for secret '' @ arn)),
                     t1)))))))"
  using assms by (simp add: lambda_handler_def version_stages_def io_defs Let_def)

theorem lambda_handler_gate_witness:
  "(let env = demo_env demo_current (Inr demo_pending);
        disabled = env \<lparr> sm_describe_secret :=
          (\<lambda>t arn. Inr \<lparr> RotationEnabled = Some False, VersionIdsToStages = Some demo_versions \<rparr>) \<rparr>
    in lambda_handler disabled \<lparr> SecretId = ''arn'', ClientRequestToken = ''v2'', Step = ''createSecret'' \<rparr> [] =
         (Inl (ValueError ''Secret arn is not enabled for rotation''), [DescribeSecret ''arn'']) \<and>
       lambda_handler env \<lparr> SecretId = ''arn'', ClientRequestToken = ''v9'', Step = ''createSecret'' \<rparr> [] =
         (Inl (ValueError ''Secret version v9 has no stage for rotation of secret arn.''),
          [DescribeSecret ''arn'']) \<and>
       lambda_handler env \<lparr> SecretId = ''arn'', ClientRequestToken = ''v1'', Step = ''createSecret'' \<rparr> [] =
         (Inr (), [DescribeSecret ''arn'']) \<and>
       lambda_handler env \<lparr> SecretId = ''arn'', ClientRequestToken = ''v0'', Step = ''createSecret'' \<rparr> [] =
         (Inl (ValueError ''Secret version v0 not set as AWSPENDING for rotation of secret arn.''),
          [DescribeSecret ''arn'']) \<and>
       lambda_handler env \<lparr> SecretId = ''arn'', ClientRequestToken = ''v2'', Step = ''createSecret'' \<rparr> [] =
         create_secret env ''arn'' ''v2'' [DescribeSecret ''arn''] \<and>
       lambda_handler env \<lparr> SecretId = ''arn'', ClientRequestToken = ''v2'', Step = ''rotate'' \<rparr> [] =
         (Inl (ValueError ''Invalid step parameter rotate for secret arn''), [DescribeSecret ''arn'']))"
proof -
  let ?env = "demo_env demo_current (Inr demo_pending)"
  let ?off = "\<lparr> RotationEnabled = Some False, VersionIdsToStages = Some demo_versions \<rparr>"
  let ?on = "\<lparr> RotationEnabled = Some True, VersionIdsToStages = Some demo_versions \<rparr>"
  let ?disabled = "?env \<lparr> sm_describe_secret := (\<lambda>t arn. Inr ?off) \<rparr>"
  have e1: "map_of (environ ?env) ''SECRETS_MANAGER_ENDPOINT'' = Some ''https://secretsmanager.example.com''"
    and e2: "map_of (environ ?disabled) ''SECRETS_MANAGER_ENDPOINT'' = Some ''https://secretsmanager.example.com''"
    by (simp_all add: demo_defs)
  have d1: "sm_describe_secret ?env [] ''arn'' = Inr ?on"
    and d2: "sm_describe_secret ?disabled [] ''arn'' = Inr ?off"
    by (simp_all add: demo_defs)
  have v: "map_of demo_versions ''v9'' = None"
    "map_of demo_versions ''v1'' = Some [''AWSCURRENT'']"
    "map_of demo_versions ''v0'' = Some [''AWSPREVIOUS'']"
    "map_of demo_versions ''v2'' = Some [''AWSPENDING'']"
    by (simp_all add: demo_defs)
  from lambda_handler_gate [OF e2 d2, of "''v2''" "''createSecret''"]
    lambda_handler_gate [OF e1 d1, of "''v9''" "''createSecret''"]
    lambda_handler_gate [OF e1 d1, of "''v1''" "''createSecret''"]
    lambda_handler_gate [OF e1 d1, of "''v0''" "''createSecret''"]
    lambda_handler_gate [OF e1 d1, of "''v2''" "''createSecret''"]
    lambda_handler_gate [OF e1 d1, of "''v2''" "''rotate''"]
  show ?thesis
    by (simp add: Let_def v)
qed


subsection \<open>finishSecret\<close>

lemma first_current_hd:
  "first_current versions =
     (case current_versions versions of [] \<Rightarrow> None | version # _ \<Rightarrow> Some version)"
  by (induction versions) (auto simp: current_versions_def)

lemma filter_eq_distinct:
  "distinct xs \<Longrightarrow> x \<in> set xs \<Longrightarrow> filter (\<lambda>y. y = x) xs = [x]"
proof (induction xs)
  case Nil
  then show ?case by simp
next
  case (Cons a xs)
  show ?case
  proof (cases "a = x")
    case True
    with Cons.prems have "x \<notin> set xs" by simp
    then have "filter (\<lambda>y. y = x) xs = []" by (auto simp: filter_empty_conv)
    with True show ?thesis by simp
  next
    case False
    with Cons show ?thesis by simp
  qed
qed

lemma current_versions_move_stage:
  "current_versions (move_stage ''AWSCURRENT'' move_to (Some old) versions) =
     map fst (filter (\<lambda>(version, stages).
        version = move_to \<or> (version \<noteq> old \<and> ''AWSCURRENT'' \<in> set stages)) versions)"
  by (induction versions) (auto simp: current_versions_def move_stage_def split: if_splits)

lemma current_versions_moved:
  assumes "distinct (map fst versions)"
    and "token \<in> fst ` set versions"
    and "current_versions versions = [old]"
  shows "current_versions (move_stage ''AWSCURRENT'' token (Some old) versions) = [token]"
proof -
  have only: "version = old" if "(version, stages) \<in> set versions" "''AWSCURRENT'' \<in> set stages"
    for version stages
  proof -
    from that have "version \<in> set (current_versions versions)"
      by (force simp: current_versions_def)
    with assms(3) show ?thesis by simp
  qed
  have "filter (\<lambda>(version, stages).
          version = token \<or> (version \<noteq> old \<and> ''AWSCURRENT'' \<in> set stages)) versions =
        filter (\<lambda>(version, stages). version = token) versions"
    by (rule filter_cong) (auto dest: only)
  also have "map fst \<dots> = filter (\<lambda>version. version = token) (map fst versions)"
    by (induction versions) auto
  also have "\<dots> = [token]"
    using assms(1,2) by (simp add: filter_eq_distinct)
  finally show ?thesis
    by (simp add: current_versions_move_stage)
qed

text \<open>
  C8. \<open>finish_secret\<close> on a store whose versions are \<open>versions\<close>, with the
  token among them and \<open>old\<close> the one version that holds \<^verbatim>\<open>AWSCURRENT\<close>. When
  \<open>old\<close> is the token it returns successfully and writes nothing. Otherwise
  its one write is the request to move \<^verbatim>\<open>AWSCURRENT\<close> from \<open>old\<close> to the
  token, and in the store that has carried it out the token is the one
  version that holds \<^verbatim>\<open>AWSCURRENT\<close>, however many versions there are.
\<close>

theorem finish_secret_promotes:
  assumes "sm_describe_secret env t arn = Inr md"
    and "VersionIdsToStages md = Some versions"
    and "distinct (map fst versions)"
    and "token \<in> fst ` set versions"
    and "current_versions versions = [old]"
  shows "(old = token \<longrightarrow>
           finish_secret env arn token t = (Inr (), t @ [DescribeSecret arn]) \<and>
           filter is_store_write (drop (length t) (snd (finish_secret env arn token t))) = []) \<and>
         (old \<noteq> token \<longrightarrow>
           (let move = UpdateSecretVersionStage arn ''AWSCURRENT'' token (Some old) in
            finish_secret env arn token t =
              (sm_update_secret_version_stage env (t @ [DescribeSecret arn]) arn ''AWSCURRENT''
                 token (Some old),
               t @ [DescribeSecret arn, move]) \<and>
            filter is_store_write (drop (length t) (snd (finish_secret env arn token t))) = [move] \<and>
            current_versions (move_stage ''AWSCURRENT'' token (Some old) versions) = [token]))"
proof -
  have found: "first_current versions = Some old"
    using assms(5) by (simp add: first_current_hd)
  have same: "finish_secret env arn token t = (Inr (), t @ [DescribeSecret arn])" if "old = token"
    using that assms(1,2) found
    by (simp add: finish_secret_def version_stages_def io_defs)
  have other: "finish_secret env arn token t =
      (sm_update_secret_version_stage env (t @ [DescribeSecret arn]) arn ''AWSCURRENT'' token (Some old),
       t @ [DescribeSecret arn, UpdateSecretVersionStage arn ''AWSCURRENT'' token (Some old)])"
    if "old \<noteq> token"
    using that assms(1,2) found
    by (simp add: finish_secret_def version_stages_def io_defs Let_def)
  have moved: "current_versions (move_stage ''AWSCURRENT'' token (Some old) versions) = [token]"
    using assms(3,4,5) by (rule current_versions_moved)
  show ?thesis
    using same other moved by (simp add: Let_def)
qed

theorem finish_secret_promotes_witness:
  "finish_secret (demo_env demo_current (Inr demo_pending)) ''arn'' ''v2'' [] =
     (Inr (), [DescribeSecret ''arn'',
               UpdateSecretVersionStage ''arn'' ''AWSCURRENT'' ''v2'' (Some ''v1'')]) \<and>
   current_versions (move_stage ''AWSCURRENT'' ''v2'' (Some ''v1'') demo_versions) = [''v2''] \<and>
   finish_secret (demo_env demo_current (Inr demo_pending)) ''arn'' ''v1'' [] =
     (Inr (), [DescribeSecret ''arn''])"
proof -
  let ?env = "demo_env demo_current (Inr demo_pending)"
  let ?md = "\<lparr> RotationEnabled = Some True, VersionIdsToStages = Some demo_versions \<rparr>"
  have h1: "sm_describe_secret ?env [] ''arn'' = Inr ?md"
    by (simp add: demo_defs)
  have h2: "VersionIdsToStages ?md = Some demo_versions"
    by simp
  have h3: "distinct (map fst demo_versions)"
    by (simp add: demo_defs)
  have h4: "''v2'' \<in> fst ` set demo_versions" and h4': "''v1'' \<in> fst ` set demo_versions"
    by (simp_all add: demo_defs)
  have h5: "current_versions demo_versions = [''v1'']"
    by (simp add: current_versions_def demo_defs)
  have u: "sm_update_secret_version_stage ?env [DescribeSecret ''arn''] ''arn'' ''AWSCURRENT'' ''v2''
      (Some ''v1'') = Inr ()"
    by (simp add: demo_defs)
  from finish_secret_promotes [OF h1 h2 h3 h4 h5] finish_secret_promotes [OF h1 h2 h3 h4' h5] u
  show ?thesis
    by (simp add: Let_def)
qed


subsection \<open>setSecret: the host of the master\<close>

lemma quiet_return: "quiet (return_io x)"
  by (simp add: quiet_def return_io_def)

lemma quiet_raise: "quiet (raise_io e)"
  by (simp add: quiet_def raise_io_def)

lemma quiet_lift: "quiet (lift_io r)"
  by (simp add: quiet_def lift_io_def)

lemma quiet_perform: "\<not> is_statement ev \<Longrightarrow> quiet (perform ev answer)"
  by (simp add: quiet_def perform_def)

lemma quiet_bind:
  assumes "quiet m" and "\<And>x. quiet (f x)"
  shows "quiet (bind_io m f)"
  unfolding quiet_def
proof
  fix t
  obtain r t1 where m: "m t = (r, t1)"
    by (cases "m t")
  from assms(1) m obtain n1 where n1: "t1 = t @ n1" "filter is_statement n1 = []"
    unfolding quiet_def by (metis snd_conv)
  show "\<exists>new. snd (bind_io m f t) = t @ new \<and> filter is_statement new = []"
  proof (cases r)
    case (Inl e)
    with m n1 show ?thesis
      by (simp add: bind_io_def)
  next
    case (Inr x)
    from assms(2) [of x] obtain n2 where "snd (f x t1) = t1 @ n2" "filter is_statement n2 = []"
      unfolding quiet_def by blast
    with Inr m n1 have "snd (bind_io m f t) = t @ (n1 @ n2) \<and> filter is_statement (n1 @ n2) = []"
      by (simp add: bind_io_def)
    then show ?thesis ..
  qed
qed

lemma quiet_getitem: "quiet (getitem d k)"
  by (simp add: getitem_def quiet_return quiet_raise split: option.split)

lemma quiet_get_secret_dict: "quiet (get_secret_dict env arn stage token)"
  unfolding quiet_def
proof
  fix t
  have "snd (get_secret_dict env arn stage token t) =
      t @ [GetSecretValue arn (if token = Some [] then None else token) stage]"
    by (rule get_secret_dict_trace)
  then show "\<exists>new. snd (get_secret_dict env arn stage token t) = t @ new \<and>
      filter is_statement new = []"
    by simp
qed

lemma quiet_get_connection: "quiet (get_connection env d)"
proof -
  have last: "quiet (\<lambda>t. case db_connect env t host user passwd port dbname 5 of
              Inr _ \<Rightarrow> (Inr (Some (length t)), t @ [Connect host user passwd port dbname 5])
            | Inl OperationalError \<Rightarrow> (Inr None, t @ [Connect host user passwd port dbname 5])
            | Inl e \<Rightarrow> (Inl e, t @ [Connect host user passwd port dbname 5]))"
    for host user passwd port dbname
    by (simp add: quiet_def split: sum.split error.split)
  show ?thesis
    unfolding get_connection_def Let_def
    by (intro quiet_bind quiet_getitem last)
      (simp_all add: quiet_lift quiet_return split: option.split)
qed

lemma quiet_conn_close: "quiet (conn_close env conn)"
  by (simp add: conn_close_def quiet_perform)

lemma quiet_set_secret_checks: "quiet (set_secret_checks env arn token)"
  unfolding set_secret_checks_def
  by (intro quiet_bind quiet_get_secret_dict quiet_get_connection quiet_getitem quiet_lift)
    (auto intro!: quiet_bind quiet_conn_close quiet_return quiet_raise quiet_getitem quiet_lift
       quiet_get_connection split: option.split)

text \<open>
  C3. \<open>set_secret\<close> has reached line 221 with the secrets \<open>current_dict\<close>
  and \<open>pending_dict\<close>, the master secret is read, its host differs from the
  current host, and the inventory does not show the current instance to be a
  replica of the master: its call raises an error, or returns no instance, or
  returns an instance whose recorded source is not the master's identifier.
  Then \<open>set_secret\<close> raises the error about the host, and from its start to
  that point no statement was executed and nothing committed on any
  connection.
\<close>

theorem set_secret_untrusted_host:
  assumes reach: "set_secret_checks env arn token t = (Inr (Some (current_dict, pending_dict)), t1)"
    and marn: "map_of current_dict ''masterarn'' = Some master_arn"
    and master: "get_secret_dict env master_arn ''AWSCURRENT'' None t1 = (Inr master_dict, t2)"
    and ch: "map_of current_dict ''host'' = Some current_host"
    and mh: "map_of master_dict ''host'' = Some master_host"
    and differ: "current_host \<noteq> master_host"
    and unconfirmed:
      "(\<exists>err. rds_describe_db_instances env t2 (instance_id current_host) = Inl err) \<or>
       rds_describe_db_instances env t2 (instance_id current_host) = Inr [] \<or>
       (\<exists>current_instance rest.
          rds_describe_db_instances env t2 (instance_id current_host) = Inr (current_instance # rest) \<and>
          ReadReplicaSourceDBInstanceIdentifier current_instance \<noteq> Some (instance_id master_host))"
  shows "set_secret env arn token t =
           (Inl (ValueError (''Current database host '' @ current_host @
                   '' is not the same host as/rds replica of master '' @ master_host)),
            t2 @ [DescribeDBInstances (instance_id current_host)]) \<and>
         filter is_statement
           (drop (length t) (t2 @ [DescribeDBInstances (instance_id current_host)])) = []"
proof -
  have replica: "is_rds_replica_database env current_dict master_dict t2 =
      (Inr False, t2 @ [DescribeDBInstances (instance_id current_host)])"
    using unconfirmed ch mh
    by (auto simp: is_rds_replica_database_def io_defs Let_def)
  have "set_secret_master env current_dict pending_dict t1 =
      (Inl (ValueError (''Current database host '' @ current_host @
              '' is not the same host as/rds replica of master '' @ master_host)),
       t2 @ [DescribeDBInstances (instance_id current_host)])"
    using marn master ch mh differ replica
    by (simp add: set_secret_master_def io_defs)
  with reach have run: "set_secret env arn token t =
      (Inl (ValueError (''Current database host '' @ current_host @
              '' is not the same host as/rds replica of master '' @ master_host)),
       t2 @ [DescribeDBInstances (instance_id current_host)])"
    by (simp add: set_secret_def bind_io_def)
  from quiet_set_secret_checks [of env arn token] reach
  obtain n1 where n1: "t1 = t @ n1" "filter is_statement n1 = []"
    unfolding quiet_def by (metis snd_conv)
  have "t2 = t1 @ [GetSecretValue master_arn None ''AWSCURRENT'']"
    using get_secret_dict_traceD [OF master] by simp
  with n1 have "filter is_statement
      (drop (length t) (t2 @ [DescribeDBInstances (instance_id current_host)])) = []"
    by simp
  with run show ?thesis
    by simp
qed

theorem set_secret_untrusted_host_witness:
  "set_secret (demo_env demo_current (Inr demo_pending)) ''arn'' ''v2'' [] =
     (Inl (ValueError ''Current database host db1.example.com is not the same host as/rds replica of master db0.example.com''),
      [GetSecretValue ''arn'' None ''AWSCURRENT'',
       GetSecretValue ''arn'' (Some ''v2'') ''AWSPENDING'',
       Connect ''db1.example.com'' ''app_user_clone'' ''new'' 3306 None 5,
       Connect ''db1.example.com'' ''app_user'' ''old'' 3306 None 5,
       Close 3,
       GetSecretValue ''master-arn'' None ''AWSCURRENT'',
       DescribeDBInstances ''db1''])"
proof -
  let ?env = "demo_env demo_current (Inr demo_pending)"
  let ?t1 = "[GetSecretValue ''arn'' None ''AWSCURRENT'',
       GetSecretValue ''arn'' (Some ''v2'') ''AWSPENDING'',
       Connect ''db1.example.com'' ''app_user_clone'' ''new'' 3306 None 5,
       Connect ''db1.example.com'' ''app_user'' ''old'' 3306 None 5,
       Close 3]"
  let ?t2 = "?t1 @ [GetSecretValue ''master-arn'' None ''AWSCURRENT'']"
  have reach: "set_secret_checks ?env ''arn'' ''v2'' [] = (Inr (Some (demo_current, demo_pending)), ?t1)"
    by (simp add: set_secret_checks_def get_secret_dict_def get_connection_def conn_close_def
        get_alt_username_def endswith_def clone_suffix_def io_defs demo_defs required_fields_def)
  have marn: "map_of demo_current ''masterarn'' = Some ''master-arn''"
    and ch: "map_of demo_current ''host'' = Some ''db1.example.com''"
    and mh: "map_of demo_master ''host'' = Some ''db0.example.com''"
    by (simp_all add: demo_defs)
  have master: "get_secret_dict ?env ''master-arn'' ''AWSCURRENT'' None ?t1 = (Inr demo_master, ?t2)"
    by (simp add: get_secret_dict_def io_defs demo_defs required_fields_def)
  have differ: "''db1.example.com'' \<noteq> ''db0.example.com''"
    by simp
  have i1: "instance_id ''db1.example.com'' = ''db1''"
    by (simp add: instance_id_def startswith_def)
  have none: "(\<exists>err. rds_describe_db_instances ?env ?t2 (instance_id ''db1.example.com'') = Inl err) \<or>
       rds_describe_db_instances ?env ?t2 (instance_id ''db1.example.com'') = Inr [] \<or>
       (\<exists>current_instance rest.
          rds_describe_db_instances ?env ?t2 (instance_id ''db1.example.com'') = Inr (current_instance # rest) \<and>
          ReadReplicaSourceDBInstanceIdentifier current_instance \<noteq> Some (instance_id ''db0.example.com''))"
    by (simp add: demo_defs)
  from set_secret_untrusted_host [OF reach marn master ch mh differ none] show ?thesis
    by (simp add: i1)
qed


subsection \<open>setSecret: replaying the grants\<close>

lemma grant_loop_step:
  assumes "map_of pending_dict ''username'' = Some pu"
    and "map_of pending_dict ''password'' = Some pp"
  shows "grant_loop env conn pending_dict (row # rows) t =
    (case db_execute env t conn (rewrite_grant row) [pu, pp] of
       Inl e \<Rightarrow> (Inl e, t @ [Execute conn (rewrite_grant row) [pu, pp]])
     | Inr _ \<Rightarrow> grant_loop env conn pending_dict rows
                 (t @ [Execute conn (rewrite_grant row) [pu, pp]]))"
  using assms by (simp add: io_defs cur_execute_def split: sum.split)

lemma grant_loop_run:
  assumes pu: "map_of pending_dict ''username'' = Some pu"
    and pp: "map_of pending_dict ''password'' = Some pp"
    and run: "grant_loop env conn pending_dict rows t = (r, t')"
  shows "(r = Inr () \<and>
          t' = t @ map (\<lambda>row. Execute conn (rewrite_grant row) [pu, pp]) rows \<and>
          (\<forall>i<length rows. \<exists>x.
             db_execute env (t @ map (\<lambda>row. Execute conn (rewrite_grant row) [pu, pp]) (take i rows))
               conn (rewrite_grant (rows ! i)) [pu, pp] = Inr x)) \<or>
         (\<exists>e k. r = Inl e \<and> k < length rows \<and>
            t' = t @ map (\<lambda>row. Execute conn (rewrite_grant row) [pu, pp]) (take (Suc k) rows) \<and>
            db_execute env (t @ map (\<lambda>row. Execute conn (rewrite_grant row) [pu, pp]) (take k rows))
              conn (rewrite_grant (rows ! k)) [pu, pp] = Inl e)"
  using run
proof (induction rows arbitrary: t)
  case Nil
  then show ?case
    by (simp add: return_io_def)
next
  case (Cons row rows)
  let ?G = "\<lambda>row. Execute conn (rewrite_grant row) [pu, pp]"
  show ?case
  proof (cases "db_execute env t conn (rewrite_grant row) [pu, pp]")
    case (Inl e)
    with Cons.prems have "r = Inl e" "t' = t @ [?G row]"
      by (simp_all add: grant_loop_step [OF pu pp] del: grant_loop.simps)
    with Inl have "r = Inl e \<and> 0 < length (row # rows) \<and>
        t' = t @ map ?G (take (Suc 0) (row # rows)) \<and>
        db_execute env (t @ map ?G (take 0 (row # rows))) conn (rewrite_grant ((row # rows) ! 0)) [pu, pp] = Inl e"
      by simp
    then show ?thesis
      by blast
  next
    case (Inr x)
    with Cons.prems have rest: "grant_loop env conn pending_dict rows (t @ [?G row]) = (r, t')"
      by (simp add: grant_loop_step [OF pu pp] del: grant_loop.simps)
    from Cons.IH [OF rest] show ?thesis
    proof (elim disjE conjE exE)
      assume r: "r = Inr ()" and t': "t' = (t @ [?G row]) @ map ?G rows"
        and all: "\<forall>i<length rows. \<exists>x.
          db_execute env ((t @ [?G row]) @ map ?G (take i rows)) conn (rewrite_grant (rows ! i)) [pu, pp] = Inr x"
      have "\<exists>x. db_execute env (t @ map ?G (take i (row # rows))) conn
          (rewrite_grant ((row # rows) ! i)) [pu, pp] = Inr x" if "i < length (row # rows)" for i
      proof (cases i)
        case 0
        with Inr show ?thesis by simp
      next
        case (Suc j)
        with that all show ?thesis by simp
      qed
      with r t' show ?thesis
        by simp
    next
      fix e k
      assume "r = Inl e" and "k < length rows"
        and "t' = (t @ [?G row]) @ map ?G (take (Suc k) rows)"
        and "db_execute env ((t @ [?G row]) @ map ?G (take k rows)) conn (rewrite_grant (rows ! k)) [pu, pp] = Inl e"
      then have "r = Inl e \<and> Suc k < length (row # rows) \<and>
          t' = t @ map ?G (take (Suc (Suc k)) (row # rows)) \<and>
          db_execute env (t @ map ?G (take (Suc k) (row # rows))) conn
            (rewrite_grant ((row # rows) ! Suc k)) [pu, pp] = Inl e"
        by simp
      then show ?thesis
        by blast
    qed
  qed
qed

lemma no_commit_in_grants:
  "filter is_commit (map (\<lambda>row. Execute conn (rewrite_grant row) [pu, pp]) rows) = []"
  by (induction rows) simp_all

lemma try_finally_close:
  assumes "try_finally body (conn_close env conn) t = (r, t')"
  shows "\<exists>rb tb. body t = (rb, tb) \<and> t' = tb @ [Close conn] \<and>
           r = (case db_close env tb conn of Inl e \<Rightarrow> Inl e | Inr _ \<Rightarrow> rb)"
proof -
  obtain rb tb where b: "body t = (rb, tb)"
    by (cases "body t")
  with assms show ?thesis
    by (cases "db_close env tb conn") (auto simp: try_finally_def conn_close_def perform_def)
qed


lemma grants_body_run:
  assumes u: "map_of current_dict ''username'' = Some u"
    and pu: "map_of pending_dict ''username'' = Some pu"
    and pp: "map_of pending_dict ''password'' = Some pp"
    and body: "bind_io (getitem current_dict ''username'') (\<lambda>username.
       bind_io (cur_execute env conn ''SHOW GRANTS FOR %s'' [username]) (\<lambda>rows.
       bind_io (grant_loop env conn pending_dict rows) (\<lambda>_.
       conn_commit env conn))) t = (rb, tb)"
  shows "(\<exists>e. db_execute env t conn ''SHOW GRANTS FOR %s'' [u] = Inl e \<and> rb = Inl e \<and>
            tb = t @ [Execute conn ''SHOW GRANTS FOR %s'' [u]]) \<or>
         (\<exists>rows e k. db_execute env t conn ''SHOW GRANTS FOR %s'' [u] = Inr rows \<and> rb = Inl e \<and>
            k < length rows \<and>
            tb = t @ Execute conn ''SHOW GRANTS FOR %s'' [u] #
                   map (\<lambda>row. Execute conn (rewrite_grant row) [pu, pp]) (take (Suc k) rows) \<and>
            db_execute env
              (t @ Execute conn ''SHOW GRANTS FOR %s'' [u] #
                   map (\<lambda>row. Execute conn (rewrite_grant row) [pu, pp]) (take k rows))
              conn (rewrite_grant (rows ! k)) [pu, pp] = Inl e) \<or>
         (\<exists>rows. db_execute env t conn ''SHOW GRANTS FOR %s'' [u] = Inr rows \<and>
            tb = t @ Execute conn ''SHOW GRANTS FOR %s'' [u] #
                   map (\<lambda>row. Execute conn (rewrite_grant row) [pu, pp]) rows @ [Commit conn] \<and>
            (\<forall>i<length rows. \<exists>x.
               db_execute env
                 (t @ Execute conn ''SHOW GRANTS FOR %s'' [u] #
                      map (\<lambda>row. Execute conn (rewrite_grant row) [pu, pp]) (take i rows))
                 conn (rewrite_grant (rows ! i)) [pu, pp] = Inr x))"
proof (cases "db_execute env t conn ''SHOW GRANTS FOR %s'' [u]")
  case (Inl e)
  with body u have "rb = Inl e \<and> tb = t @ [Execute conn ''SHOW GRANTS FOR %s'' [u]]"
    by (simp add: io_defs cur_execute_def)
  with Inl show ?thesis
    by simp
next
  case (Inr rows)
  let ?S = "Execute conn ''SHOW GRANTS FOR %s'' [u]"
  let ?G = "\<lambda>row. Execute conn (rewrite_grant row) [pu, pp]"
  obtain rl tl where loop: "grant_loop env conn pending_dict rows (t @ [?S]) = (rl, tl)"
    by (cases "grant_loop env conn pending_dict rows (t @ [?S])")
  show ?thesis
  proof (cases rl)
    case bad: (Inl e)
    with body u Inr loop have fin: "rb = Inl e \<and> tb = tl"
      by (simp add: io_defs cur_execute_def)
    from grant_loop_run [OF pu pp loop] bad obtain k where
      "k < length rows" "tl = (t @ [?S]) @ map ?G (take (Suc k) rows)"
      "db_execute env ((t @ [?S]) @ map ?G (take k rows)) conn (rewrite_grant (rows ! k)) [pu, pp] = Inl e"
      by auto
    with fin Inr have "db_execute env t conn ''SHOW GRANTS FOR %s'' [u] = Inr rows \<and> rb = Inl e \<and>
        k < length rows \<and> tb = t @ ?S # map ?G (take (Suc k) rows) \<and>
        db_execute env (t @ ?S # map ?G (take k rows)) conn (rewrite_grant (rows ! k)) [pu, pp] = Inl e"
      by simp
    then show ?thesis
      by blast
  next
    case ok: (Inr x)
    with body u Inr loop have fin: "tb = tl @ [Commit conn]"
      by (simp add: io_defs cur_execute_def conn_commit_def)
    from grant_loop_run [OF pu pp loop] ok have
      tl: "tl = (t @ [?S]) @ map ?G rows"
      and all: "\<forall>i<length rows. \<exists>x.
        db_execute env ((t @ [?S]) @ map ?G (take i rows)) conn (rewrite_grant (rows ! i)) [pu, pp] = Inr x"
      by auto
    from all have "\<forall>i<length rows. \<exists>x.
        db_execute env (t @ ?S # map ?G (take i rows)) conn (rewrite_grant (rows ! i)) [pu, pp] = Inr x"
      by simp
    with fin tl Inr have "db_execute env t conn ''SHOW GRANTS FOR %s'' [u] = Inr rows \<and>
        tb = t @ ?S # map ?G rows @ [Commit conn] \<and>
        (\<forall>i<length rows. \<exists>x.
           db_execute env (t @ ?S # map ?G (take i rows)) conn (rewrite_grant (rows ! i)) [pu, pp] = Inr x)"
      by simp
    then show ?thesis
      by blast
  qed
qed


text \<open>
  C2. The block of lines 247 to 267, run on the master connection \<open>conn\<close>
  with the secrets as \<open>get_secret_dict\<close> returns them. On every path the
  last thing it does is to close the connection, once. Either it commits
  nothing; or \<^verbatim>\<open>SHOW GRANTS\<close> has answered with \<open>rows\<close>, what the block did is
  that query, then the rewritten statement of every row in order, then one
  commit, and every one of these statements was executed without error. When
  \<^verbatim>\<open>SHOW GRANTS\<close> answers and the statement of every row is executed without
  error, that is what happens. When the execution of any statement of the
  block raised an error, nothing is committed and the block ends with an
  error.
\<close>

theorem set_secret_grants_commit:
  assumes u: "map_of current_dict ''username'' = Some u"
    and pu: "map_of pending_dict ''username'' = Some pu"
    and pp: "map_of pending_dict ''password'' = Some pp"
    and run: "set_secret_grants env conn current_dict pending_dict t = (r, t')"
  shows "\<exists>new. t' = t @ new @ [Close conn] \<and> Close conn \<notin> set new \<and>
    (filter is_commit new = [] \<or>
     (\<exists>rows. db_execute env t conn ''SHOW GRANTS FOR %s'' [u] = Inr rows \<and>
        new = Execute conn ''SHOW GRANTS FOR %s'' [u] #
              map (\<lambda>row. Execute conn (rewrite_grant row) [pu, pp]) rows @ [Commit conn] \<and>
        (\<forall>i<length rows. \<exists>x.
           db_execute env
             (t @ Execute conn ''SHOW GRANTS FOR %s'' [u] #
                  map (\<lambda>row. Execute conn (rewrite_grant row) [pu, pp]) (take i rows))
             conn (rewrite_grant (rows ! i)) [pu, pp] = Inr x))) \<and>
    (\<forall>rows. db_execute env t conn ''SHOW GRANTS FOR %s'' [u] = Inr rows \<and>
        (\<forall>i<length rows. \<exists>x.
           db_execute env
             (t @ Execute conn ''SHOW GRANTS FOR %s'' [u] #
                  map (\<lambda>row. Execute conn (rewrite_grant row) [pu, pp]) (take i rows))
             conn (rewrite_grant (rows ! i)) [pu, pp] = Inr x) \<longrightarrow>
        new = Execute conn ''SHOW GRANTS FOR %s'' [u] #
              map (\<lambda>row. Execute conn (rewrite_grant row) [pu, pp]) rows @ [Commit conn]) \<and>
    ((\<exists>i query args e. i < length new \<and> new ! i = Execute conn query args \<and>
         db_execute env (t @ take i new) conn query args = Inl e) \<longrightarrow>
       filter is_commit new = [] \<and> (\<exists>e. r = Inl e))"
proof -
  let ?S = "Execute conn ''SHOW GRANTS FOR %s'' [u]"
  let ?G = "\<lambda>row. Execute conn (rewrite_grant row) [pu, pp]"
  from try_finally_close [OF run [unfolded set_secret_grants_def]]
  obtain rb tb where
    body: "bind_io (getitem current_dict ''username'') (\<lambda>username.
       bind_io (cur_execute env conn ''SHOW GRANTS FOR %s'' [username]) (\<lambda>rows.
       bind_io (grant_loop env conn pending_dict rows) (\<lambda>_.
       conn_commit env conn))) t = (rb, tb)"
    and t': "t' = tb @ [Close conn]"
    and r: "r = (case db_close env tb conn of Inl e \<Rightarrow> Inl e | Inr _ \<Rightarrow> rb)"
    by blast
  have raised: "\<exists>e'. r = Inl e'" if "rb = Inl e" for e
    using that r by (cases "db_close env tb conn") simp_all
  from grants_body_run [OF u pu pp body]
  consider
    (show_failed) e where "db_execute env t conn ''SHOW GRANTS FOR %s'' [u] = Inl e"
      "rb = Inl e" "tb = t @ [?S]"
  | (grant_failed) rows e k where "db_execute env t conn ''SHOW GRANTS FOR %s'' [u] = Inr rows"
      "rb = Inl e" "k < length rows" "tb = t @ ?S # map ?G (take (Suc k) rows)"
      "db_execute env (t @ ?S # map ?G (take k rows)) conn (rewrite_grant (rows ! k)) [pu, pp] = Inl e"
  | (committed) rows where "db_execute env t conn ''SHOW GRANTS FOR %s'' [u] = Inr rows"
      "tb = t @ ?S # map ?G rows @ [Commit conn]"
      "\<forall>i<length rows. \<exists>x.
         db_execute env (t @ ?S # map ?G (take i rows)) conn (rewrite_grant (rows ! i)) [pu, pp] = Inr x"
    by blast
  then show ?thesis
  proof cases
    case show_failed
    from raised [OF show_failed(2)] show_failed(3) t'
    have "t' = t @ [?S] @ [Close conn] \<and> Close conn \<notin> set [?S] \<and>
        filter is_commit [?S] = [] \<and> (\<exists>e. r = Inl e)"
      by simp
    moreover have "\<forall>rows. db_execute env t conn ''SHOW GRANTS FOR %s'' [u] \<noteq> Inr rows"
      using show_failed(1) by simp
    ultimately show ?thesis
      by blast
  next
    case grant_failed
    let ?new = "?S # map ?G (take (Suc k) rows)"
    have "Close conn \<notin> set ?new"
      by auto
    moreover have "filter is_commit ?new = []"
      by (simp add: no_commit_in_grants)
    moreover have "t' = t @ ?new @ [Close conn]"
      using grant_failed(4) t' by simp
    ultimately have first: "t' = t @ ?new @ [Close conn] \<and> Close conn \<notin> set ?new \<and>
        filter is_commit ?new = [] \<and> (\<exists>e. r = Inl e)"
      using raised [OF grant_failed(2)] by blast
    have never: "\<not> (db_execute env t conn ''SHOW GRANTS FOR %s'' [u] = Inr rows' \<and>
        (\<forall>i<length rows'. \<exists>x.
           db_execute env (t @ ?S # map ?G (take i rows')) conn
             (rewrite_grant (rows' ! i)) [pu, pp] = Inr x))" for rows'
    proof
      assume a: "db_execute env t conn ''SHOW GRANTS FOR %s'' [u] = Inr rows' \<and>
        (\<forall>i<length rows'. \<exists>x.
           db_execute env (t @ ?S # map ?G (take i rows')) conn
             (rewrite_grant (rows' ! i)) [pu, pp] = Inr x)"
      with grant_failed(1) have "rows' = rows"
        by simp
      with a grant_failed(3) obtain x where
        "db_execute env (t @ ?S # map ?G (take k rows)) conn (rewrite_grant (rows ! k)) [pu, pp] = Inr x"
        by blast
      with grant_failed(5) show False
        by simp
    qed
    show ?thesis
      apply (rule exI [of _ ?new])
      using first never by blast
  next
    case committed
    let ?new = "?S # map ?G rows @ [Commit conn]"
    have shape: "t' = t @ ?new @ [Close conn]"
      using committed(2) t' by simp
    have closed: "Close conn \<notin> set ?new"
      by auto
    have none_failed: False
      if i: "i < length ?new" and ev: "?new ! i = Execute conn query args"
        and bad: "db_execute env (t @ take i ?new) conn query args = Inl e"
      for i query args e
    proof (cases i)
      case 0
      with ev bad committed(1) show False
        by simp
    next
      case (Suc j)
      show False
      proof (cases "j < length rows")
        case True
        with Suc ev have q: "query = rewrite_grant (rows ! j)" "args = [pu, pp]"
          by (simp_all add: nth_append)
        from Suc True have "take i ?new = ?S # map ?G (take j rows)"
          by (simp add: take_map)
        with bad q have "db_execute env (t @ ?S # map ?G (take j rows)) conn
            (rewrite_grant (rows ! j)) [pu, pp] = Inl e"
          by simp
        with committed(3) True show False
          by auto
      next
        case False
        with Suc i have "j = length rows"
          by simp
        with Suc ev show False
          by (simp add: nth_append)
      qed
    qed
    have no_failure: "\<not> (\<exists>i query args e. i < length ?new \<and> ?new ! i = Execute conn query args \<and>
        db_execute env (t @ take i ?new) conn query args = Inl e)"
      using none_failed by blast
    have second: "\<exists>rows'. db_execute env t conn ''SHOW GRANTS FOR %s'' [u] = Inr rows' \<and>
        ?new = ?S # map ?G rows' @ [Commit conn] \<and>
        (\<forall>i<length rows'. \<exists>x.
           db_execute env (t @ ?S # map ?G (take i rows')) conn
             (rewrite_grant (rows' ! i)) [pu, pp] = Inr x)"
      using committed(1,3) by blast
    have third: "\<forall>rows'. db_execute env t conn ''SHOW GRANTS FOR %s'' [u] = Inr rows' \<and>
        (\<forall>i<length rows'. \<exists>x.
           db_execute env (t @ ?S # map ?G (take i rows')) conn
             (rewrite_grant (rows' ! i)) [pu, pp] = Inr x) \<longrightarrow>
        ?new = ?S # map ?G rows' @ [Commit conn]"
      using committed(1) by auto
    show ?thesis
      apply (rule exI [of _ ?new])
      using shape closed second third no_failure by blast
  qed
qed


theorem set_secret_grants_commit_witness:
  "set_secret_grants (demo_env demo_current (Inr demo_pending)) 2 demo_current demo_pending [] =
     (Inr (),
      [Execute 2 ''SHOW GRANTS FOR %s'' [''app_user''],
       Execute 2 ''GRANT USAGE ON *.* TO %s IDENTIFIED BY %s'' [''app_user_clone'', ''new''],
       Execute 2 ''GRANT SELECT ON shop.* TO %s IDENTIFIED BY %s'' [''app_user_clone'', ''new''],
       Commit 2, Close 2]) \<and>
   set_secret_grants
     (demo_env demo_current (Inr demo_pending)
        \<lparr> db_execute := (\<lambda>t conn query args.
             if query = ''SHOW GRANTS FOR %s'' then Inr [''GRANT USAGE ON *.* TO app_user'']
             else Inl OperationalError) \<rparr>)
     2 demo_current demo_pending [] =
     (Inl OperationalError,
      [Execute 2 ''SHOW GRANTS FOR %s'' [''app_user''],
       Execute 2 ''GRANT USAGE ON *.* TO %s IDENTIFIED BY %s'' [''app_user_clone'', ''new''],
       Close 2]) \<and>
   (\<exists>new. [Execute 2 ''SHOW GRANTS FOR %s'' [''app_user''],
            Execute 2 ''GRANT USAGE ON *.* TO %s IDENTIFIED BY %s'' [''app_user_clone'', ''new''],
            Close 2] = new @ [Close 2] \<and>
          Close 2 \<notin> set new \<and> filter is_commit new = [])"
proof -
  let ?env = "demo_env demo_current (Inr demo_pending)"
  let ?failing = "?env \<lparr> db_execute := (\<lambda>t conn query args.
             if query = ''SHOW GRANTS FOR %s'' then Inr [''GRANT USAGE ON *.* TO app_user'']
             else Inl OperationalError) \<rparr>"
  let ?S = "Execute 2 ''SHOW GRANTS FOR %s'' [''app_user'']"
  let ?G1 = "Execute 2 ''GRANT USAGE ON *.* TO %s IDENTIFIED BY %s'' [''app_user_clone'', ''new'']"
  let ?G2 = "Execute 2 ''GRANT SELECT ON shop.* TO %s IDENTIFIED BY %s'' [''app_user_clone'', ''new'']"
  have u: "map_of demo_current ''username'' = Some ''app_user''"
    and pu: "map_of demo_pending ''username'' = Some ''app_user_clone''"
    and pp: "map_of demo_pending ''password'' = Some ''new''"
    by (simp_all add: demo_defs)
  have r1: "rewrite_grant ''GRANT USAGE ON *.* TO app_user'' =
      ''GRANT USAGE ON *.* TO %s IDENTIFIED BY %s''"
    and r2: "rewrite_grant ''GRANT SELECT ON shop.* TO app_user'' =
      ''GRANT SELECT ON shop.* TO %s IDENTIFIED BY %s''"
    by (simp_all add: rewrite_grant_def escape_percent_def startswith_def)
  have run1: "set_secret_grants ?env 2 demo_current demo_pending [] =
      (Inr (), [?S, ?G1, ?G2, Commit 2, Close 2])"
    by (simp add: set_secret_grants_def try_finally_def cur_execute_def conn_commit_def
        conn_close_def io_defs demo_defs r1 r2)
  have run2: "set_secret_grants ?failing 2 demo_current demo_pending [] =
      (Inl OperationalError, [?S, ?G1, Close 2])"
    by (simp add: set_secret_grants_def try_finally_def cur_execute_def conn_commit_def
        conn_close_def io_defs demo_defs r1)
  from set_secret_grants_commit [OF u pu pp run2]
  obtain new where new: "[?S, ?G1, Close 2] = [] @ new @ [Close 2]"
    and closed: "Close 2 \<notin> set new"
    and failure: "(\<exists>i query args e. i < length new \<and> new ! i = Execute 2 query args \<and>
           db_execute ?failing ([] @ take i new) 2 query args = Inl e) \<longrightarrow>
         filter is_commit new = [] \<and> (\<exists>e. (Inl OperationalError :: error + unit) = Inl e)"
    by blast
  from new have eq: "new = [?S, ?G1]"
    by simp
  have "1 < length new \<and> new ! 1 = ?G1 \<and>
      db_execute ?failing ([] @ take 1 new) 2
        ''GRANT USAGE ON *.* TO %s IDENTIFIED BY %s'' [''app_user_clone'', ''new''] = Inl OperationalError"
    unfolding eq by (simp add: demo_defs)
  with failure have "filter is_commit new = []"
    by blast
  with new closed have "[?S, ?G1, Close 2] = new @ [Close 2] \<and> Close 2 \<notin> set new \<and>
      filter is_commit new = []"
    by simp
  then have "\<exists>new. [?S, ?G1, Close 2] = new @ [Close 2] \<and> Close 2 \<notin> set new \<and>
      filter is_commit new = []" ..
  with run1 run2 show ?thesis
    by blast
qed

end
